theory Spec2Isabelle
  imports Main
begin

section \<open>Credential lifecycle and authenticated dispatch of slack-mcp\<close>

text \<open>
  A shallow embedding of the token management and request helpers of
  \<^verbatim>\<open>src/slack.py\<close>: \<^verbatim>\<open>_token_state\<close>, \<^verbatim>\<open>_get_token_type\<close>,
  \<^verbatim>\<open>_load_token_from_env\<close>, \<^verbatim>\<open>_save_tokens_to_env\<close>, \<^verbatim>\<open>_refresh_token\<close>,
  \<^verbatim>\<open>_get_token\<close>, \<^verbatim>\<open>_is_user_token\<close>, \<^verbatim>\<open>_post\<close> and \<^verbatim>\<open>_get\<close>.
  Python names start with an underscore, which an Isabelle name cannot; the
  underscore is dropped.
\<close>

subsection \<open>Strings\<close>

text \<open>\<^verbatim>\<open>s.startswith(p)\<close>.\<close>

definition startswith :: "string \<Rightarrow> string \<Rightarrow> bool" where
  "startswith s p = (take (length p) s = p)"

subsection \<open>Token kinds\<close>

text \<open>The six strings \<^verbatim>\<open>_get_token_type\<close> returns.\<close>

datatype token_type =
  T_bot | T_user | T_user_rotatable | T_bot_rotatable | T_app_level | T_unknown

definition get_token_type :: "string \<Rightarrow> token_type" where
  "get_token_type token =
     (if startswith token ''xoxb-'' then T_bot
      else if startswith token ''xoxp-'' then T_user
      else if startswith token ''xoxe.xoxp-'' then T_user_rotatable
      else if startswith token ''xoxe.xoxb-'' then T_bot_rotatable
      else if startswith token ''xapp-'' then T_app_level
      else T_unknown)"

subsection \<open>Decoded JSON\<close>

text \<open>
  What \<^verbatim>\<open>resp.json()\<close> returns, and so every value the code handles: a
  credential is a string when it comes from the environment and whatever
  the rotation response held when it comes from there. A decoded object is
  an association list (the first binding of a key is the dictionary's
  value). A number is an integer or a float, the latter given by mantissa
  and binary exponent; the code only looks at the truth value of a number.
\<close>

datatype json =
  JNull | JBool bool | JInt int | JFloat int int | JStr string | JArr "json list"
  | JObj "(string \<times> json) list"

text \<open>Python's truth value of a decoded value.\<close>

fun truthy :: "json \<Rightarrow> bool" where
  "truthy JNull = False"
| "truthy (JBool b) = b"
| "truthy (JInt i) = (i \<noteq> 0)"
| "truthy (JFloat m e) = (m \<noteq> 0)"
| "truthy (JStr s) = (s \<noteq> [])"
| "truthy (JArr xs) = (xs \<noteq> [])"
| "truthy (JObj kvs) = (kvs \<noteq> [])"

text \<open>\<^verbatim>\<open>data.get(k)\<close> on a dictionary, \<open>None\<close> standing for Python's \<^verbatim>\<open>None\<close>.\<close>

definition dict_get :: "(string \<times> json) list \<Rightarrow> string \<Rightarrow> json option" where
  "dict_get d k = map_of d k"

definition truthy_opt :: "json option \<Rightarrow> bool" where
  "truthy_opt v = (case v of None \<Rightarrow> False | Some j \<Rightarrow> truthy j)"

text \<open>\<^verbatim>\<open>data.get(k, default)\<close>: the value as it is, of whatever type.\<close>

definition dict_get_default :: "(string \<times> json) list \<Rightarrow> string \<Rightarrow> json \<Rightarrow> json" where
  "dict_get_default d k dflt = (case dict_get d k of None \<Rightarrow> dflt | Some v \<Rightarrow> v)"

text \<open>
  The text an f-string inserts for a value: a string is inserted as it is.
  For a value that is not a string it is what Python's built-in \<^verbatim>\<open>str()\<close>
  gives; that function is a parameter, \<open>str_other\<close>, of everything that
  formats a credential.
\<close>

definition format_value :: "(json \<Rightarrow> string) \<Rightarrow> json \<Rightarrow> string" where
  "format_value str_other v = (case v of JStr s \<Rightarrow> s | _ \<Rightarrow> str_other v)"

subsection \<open>Environment, network and process state\<close>

text \<open>\<^verbatim>\<open>os.environ\<close> and \<^verbatim>\<open>os.getenv(name, default)\<close>.\<close>

type_synonym environ = "string \<rightharpoonup> string"

definition getenv :: "environ \<Rightarrow> string \<Rightarrow> string \<Rightarrow> string" where
  "getenv env name dflt = (case env name of None \<Rightarrow> dflt | Some v \<Rightarrow> v)"

text \<open>Python's \<^verbatim>\<open>a or b\<close> on strings.\<close>

definition py_or :: "string \<Rightarrow> string \<Rightarrow> string" where
  "py_or a b = (if a \<noteq> [] then a else b)"

datatype verb = GET | POST

type_synonym params = "(string \<times> json) list"

datatype payload =
  Json_body params | Query_params params | Form_data "(string \<times> json) list"

record request =
  req_verb :: verb
  req_url :: string
  req_headers :: "(string \<times> string) list"
  req_payload :: payload

text \<open>
  What one round trip yields: the transport raises, the body is not JSON
  (\<^verbatim>\<open>resp.json()\<close> raises), or a decoded body. The platform is any function
  from the number of requests issued before to the outcome of the next one,
  so that every sequence of platform responses is covered.
\<close>

datatype outcome = Transport_failure | Not_json | Body json

type_synonym platform = "nat \<Rightarrow> outcome"

text \<open>
  The exceptions that leave these functions: \<^verbatim>\<open>ValueError\<close> is raised by
  \<^verbatim>\<open>_get_token\<close> (the spec's \<open>CredentialMissing\<close>); the others come out of
  the HTTP client, of \<^verbatim>\<open>resp.json()\<close>, and of \<^verbatim>\<open>data.get\<close> or
  \<^verbatim>\<open>token.startswith\<close> on a value that has no such attribute. The code
  catches none of them.
\<close>

datatype error = ValueError | TransportError | JSONDecodeError | AttributeError

text \<open>
  The mutable state: the two entries of \<^verbatim>\<open>_token_state\<close>, the text of
  \<^verbatim>\<open>ENV_FILE\<close> as \<^verbatim>\<open>read_text\<close> returns it (\<open>None\<close> when the file does
  not exist) and the requests issued so far. The entries are annotated
  \<^verbatim>\<open>str\<close>, but a rotation stores what the response held, so they are
  decoded values. Output of \<^verbatim>\<open>print\<close> is not modelled.
\<close>

record world =
  st_access_token :: json
  st_refresh_token :: json
  env_file :: "string option"
  sent :: "request list"

type_synonym 'a result = "(error + 'a) \<times> world"

definition SLACK_API_BASE :: string where
  "SLACK_API_BASE = ''https://slack.com/api''"

text \<open>The module-level initialisation of \<^verbatim>\<open>_token_state\<close>.\<close>

definition token_state_init :: "environ \<Rightarrow> string option \<Rightarrow> world" where
  "token_state_init env file =
     \<lparr> st_access_token =
         JStr (py_or (getenv env ''SLACK_TOKEN'' [])
           (py_or (getenv env ''SLACK_BOT_TOKEN'' []) (getenv env ''SLACK_USER_TOKEN'' []))),
       st_refresh_token = JStr (getenv env ''SLACK_REFRESH_TOKEN'' []),
       env_file = file,
       sent = [] \<rparr>"

definition load_token_from_env :: "environ \<Rightarrow> world \<Rightarrow> world" where
  "load_token_from_env env w =
     w\<lparr> st_access_token :=
          JStr (py_or (getenv env ''SLACK_TOKEN'' [])
            (py_or (getenv env ''SLACK_BOT_TOKEN'' []) (getenv env ''SLACK_USER_TOKEN'' []))),
        st_refresh_token := JStr (getenv env ''SLACK_REFRESH_TOKEN'' []) \<rparr>"

subsection \<open>Rewriting the configuration file\<close>

text \<open>
  \<^verbatim>\<open>str.splitlines()\<close> on 8-bit text: a line ends at LF, CR, CR LF, VT, FF,
  FS, GS, RS or NEL; a final line break opens no further line.
\<close>

definition is_linebreak :: "char \<Rightarrow> bool" where
  "is_linebreak c =
     (c \<in> set [CHR 0x0A, CHR 0x0D, CHR 0x0B, CHR 0x0C, CHR 0x1C, CHR 0x1D, CHR 0x1E, CHR 0x85])"

fun splitlines_from :: "string \<Rightarrow> string \<Rightarrow> string list" where
  "splitlines_from cur [] = (if cur = [] then [] else [cur])"
| "splitlines_from cur [c] =
     (if is_linebreak c then [cur] else [cur @ [c]])"
| "splitlines_from cur (c # d # cs) =
     (if c = CHR 0x0D \<and> d = CHR 0x0A then cur # splitlines_from [] cs
      else if is_linebreak c then cur # splitlines_from [] (d # cs)
      else splitlines_from (cur @ [c]) (d # cs))"

definition splitlines :: "string \<Rightarrow> string list" where
  "splitlines content = splitlines_from [] content"

text \<open>\<^verbatim>\<open>sep.join(xs)\<close>.\<close>

fun join :: "string \<Rightarrow> string list \<Rightarrow> string" where
  "join sep [] = []"
| "join sep [x] = x"
| "join sep (x # y # ys) = x @ sep @ join sep (y # ys)"

text \<open>
  The \<^verbatim>\<open>for line in lines\<close> loop of \<^verbatim>\<open>_save_tokens_to_env\<close>, on the triple
  \<open>(new_lines, found_access, found_refresh)\<close>.
\<close>

fun save_loop ::
  "(json \<Rightarrow> string) \<Rightarrow> json \<Rightarrow> json \<Rightarrow> string list \<Rightarrow> string list \<times> bool \<times> bool
   \<Rightarrow> string list \<times> bool \<times> bool"
where
  "save_loop str_other access_token refresh_token [] acc = acc"
| "save_loop str_other access_token refresh_token (line # lines)
     (new_lines, found_access, found_refresh) =
     (if startswith line ''SLACK_TOKEN='' \<or> startswith line ''SLACK_BOT_TOKEN=''
         \<or> startswith line ''SLACK_USER_TOKEN=''
      then
        (if \<not> found_access
         then save_loop str_other access_token refresh_token lines
                (new_lines @ [''SLACK_TOKEN='' @ format_value str_other access_token],
                 True, found_refresh)
         else save_loop str_other access_token refresh_token lines
                (new_lines, found_access, found_refresh))
      else if startswith line ''SLACK_REFRESH_TOKEN=''
      then save_loop str_other access_token refresh_token lines
             (new_lines @ [''SLACK_REFRESH_TOKEN='' @ format_value str_other refresh_token],
              found_access, True)
      else save_loop str_other access_token refresh_token lines
             (new_lines @ [line], found_access, found_refresh))"

text \<open>The list \<^verbatim>\<open>new_lines\<close> that is written, from the lines that were read.\<close>

definition rewrite_lines :: "(json \<Rightarrow> string) \<Rightarrow> json \<Rightarrow> json \<Rightarrow> string list \<Rightarrow> string list" where
  "rewrite_lines str_other access_token refresh_token lines =
     (case save_loop str_other access_token refresh_token lines ([], False, False) of
        (new_lines, found_access, found_refresh) \<Rightarrow>
          (let new_lines1 =
                 (if \<not> found_access
                  then new_lines @ [''SLACK_TOKEN='' @ format_value str_other access_token]
                  else new_lines);
               new_lines2 =
                 (if \<not> found_refresh \<and> truthy refresh_token
                  then new_lines1
                       @ [''SLACK_REFRESH_TOKEN='' @ format_value str_other refresh_token]
                  else new_lines1)
           in new_lines2))"

definition save_tokens_to_env :: "(json \<Rightarrow> string) \<Rightarrow> json \<Rightarrow> json \<Rightarrow> world \<Rightarrow> world" where
  "save_tokens_to_env str_other access_token refresh_token w =
     (let w1 = w\<lparr> st_access_token := access_token, st_refresh_token := refresh_token \<rparr>
      in case env_file w1 of
           None \<Rightarrow> w1
         | Some content \<Rightarrow>
             w1\<lparr> env_file :=
                   Some (join [CHR 0x0A]
                           (rewrite_lines str_other access_token refresh_token
                              (splitlines content))
                         @ [CHR 0x0A]) \<rparr>)"

subsection \<open>One round trip\<close>

text \<open>
  \<^verbatim>\<open>await client.post(...)\<close> or \<^verbatim>\<open>client.get(...)\<close> followed by
  \<^verbatim>\<open>resp.json()\<close>: the request is recorded, and the platform's outcome for it
  is the decoded body or the exception raised.
\<close>

definition round_trip :: "platform \<Rightarrow> request \<Rightarrow> world \<Rightarrow> json result" where
  "round_trip pf req w =
     (let w1 = w\<lparr> sent := sent w @ [req] \<rparr>
      in case pf (length (sent w)) of
           Transport_failure \<Rightarrow> (Inl TransportError, w1)
         | Not_json \<Rightarrow> (Inl JSONDecodeError, w1)
         | Body data \<Rightarrow> (Inr data, w1))"

subsection \<open>Rotation\<close>

text \<open>
  \<^verbatim>\<open>new_access\<close> and \<^verbatim>\<open>new_refresh\<close> are the values of the response, of
  whatever type; \<^verbatim>\<open>if new_access:\<close> tests the truth value, and the values
  are stored as they are.
\<close>

definition refresh_token :: "(json \<Rightarrow> string) \<Rightarrow> platform \<Rightarrow> world \<Rightarrow> bool result" where
  "refresh_token str_other pf w =
     (let refresh = st_refresh_token w in
      if \<not> truthy refresh then (Inr False, w)
      else
        (case round_trip pf
                \<lparr> req_verb = POST,
                  req_url = SLACK_API_BASE @ ''/tooling.tokens.rotate'',
                  req_headers = [],
                  req_payload = Form_data [(''refresh_token'', refresh)] \<rparr> w of
           (Inl e, w1) \<Rightarrow> (Inl e, w1)
         | (Inr (JObj data), w1) \<Rightarrow>
             (if truthy_opt (dict_get data ''ok'') then
                (let new_access = dict_get_default data ''token'' (JStr []);
                     new_refresh = dict_get_default data ''refresh_token'' (JStr [])
                 in if truthy new_access
                    then (Inr True, save_tokens_to_env str_other new_access new_refresh w1)
                    else (Inr False, w1))
              else (Inr False, w1))
         | (Inr _, w1) \<Rightarrow> (Inl AttributeError, w1)))"

subsection \<open>Reading the credential\<close>

definition get_token :: "environ \<Rightarrow> world \<Rightarrow> json result" where
  "get_token env w =
     (let token = st_access_token w in
      if \<not> truthy token then
        (let w1 = load_token_from_env env w;
             token1 = st_access_token w1
         in if \<not> truthy token1 then (Inl ValueError, w1) else (Inr token1, w1))
      else (Inr token, w))"

text \<open>
  \<^verbatim>\<open>_get_token_type(token)\<close> calls \<^verbatim>\<open>token.startswith\<close>, which a value that
  is not a string does not have.
\<close>

definition is_user_token :: "environ \<Rightarrow> world \<Rightarrow> bool result" where
  "is_user_token env w =
     (case get_token env w of
        (Inl e, w1) \<Rightarrow> (Inl e, w1)
      | (Inr (JStr token), w1) \<Rightarrow>
          (let token_type = get_token_type token
           in (Inr (token_type \<in> set [T_user, T_user_rotatable]), w1))
      | (Inr _, w1) \<Rightarrow> (Inl AttributeError, w1))"

subsection \<open>Dispatch\<close>

text \<open>
  \<^verbatim>\<open>SlackResult = list[TextContent]\<close>. The text is
  \<^verbatim>\<open>json.dumps(data, indent=2)\<close>; the embedding keeps the decoded value that
  is serialised.
\<close>

record text_content =
  tc_type :: string
  tc_text :: json

type_synonym slack_result = "text_content list"

text \<open>\<^verbatim>\<open>params or {}\<close>.\<close>

definition params_or_empty :: "params option \<Rightarrow> params" where
  "params_or_empty ps = (case ps of None \<Rightarrow> [] | Some d \<Rightarrow> d)"

text \<open>
  The test \<^verbatim>\<open>not data.get("ok") and data.get("error") == "token_expired"\<close>
  on a decoded dictionary.
\<close>

definition token_expired :: "(string \<times> json) list \<Rightarrow> bool" where
  "token_expired data =
     (\<not> truthy_opt (dict_get data ''ok'') \<and> dict_get data ''error'' = Some (JStr ''token_expired''))"

function post ::
  "(json \<Rightarrow> string) \<Rightarrow> platform \<Rightarrow> environ \<Rightarrow> string \<Rightarrow> params option \<Rightarrow> bool \<Rightarrow> world
   \<Rightarrow> slack_result result"
where
  "post str_other pf env endpoint ps retry_on_auth_fail w =
     (case get_token env w of
        (Inl e, w1) \<Rightarrow> (Inl e, w1)
      | (Inr token, w1) \<Rightarrow>
          (case round_trip pf
                  \<lparr> req_verb = POST,
                    req_url = SLACK_API_BASE @ ''/'' @ endpoint,
                    req_headers =
                      [(''Authorization'', ''Bearer '' @ format_value str_other token),
                       (''Content-Type'', ''application/json; charset=utf-8'')],
                    req_payload = Json_body (params_or_empty ps) \<rparr> w1 of
             (Inl e, w2) \<Rightarrow> (Inl e, w2)
           | (Inr (JObj data), w2) \<Rightarrow>
               (if token_expired data \<and> retry_on_auth_fail then
                  (case refresh_token str_other pf w2 of
                     (Inl e, w3) \<Rightarrow> (Inl e, w3)
                   | (Inr True, w3) \<Rightarrow> post str_other pf env endpoint ps False w3
                   | (Inr False, w3) \<Rightarrow>
                       (Inr [\<lparr> tc_type = ''text'', tc_text = JObj data \<rparr>], w3))
                else (Inr [\<lparr> tc_type = ''text'', tc_text = JObj data \<rparr>], w2))
           | (Inr _, w2) \<Rightarrow> (Inl AttributeError, w2)))"
  by pat_completeness auto
termination
  by (relation "measure (\<lambda>(str_other, pf, env, endpoint, ps, retry, w). if retry then 1 else 0)")
     auto

function get ::
  "(json \<Rightarrow> string) \<Rightarrow> platform \<Rightarrow> environ \<Rightarrow> string \<Rightarrow> params option \<Rightarrow> bool \<Rightarrow> world
   \<Rightarrow> slack_result result"
where
  "get str_other pf env endpoint ps retry_on_auth_fail w =
     (case get_token env w of
        (Inl e, w1) \<Rightarrow> (Inl e, w1)
      | (Inr token, w1) \<Rightarrow>
          (case round_trip pf
                  \<lparr> req_verb = GET,
                    req_url = SLACK_API_BASE @ ''/'' @ endpoint,
                    req_headers = [(''Authorization'', ''Bearer '' @ format_value str_other token)],
                    req_payload = Query_params (params_or_empty ps) \<rparr> w1 of
             (Inl e, w2) \<Rightarrow> (Inl e, w2)
           | (Inr (JObj data), w2) \<Rightarrow>
               (if token_expired data \<and> retry_on_auth_fail then
                  (case refresh_token str_other pf w2 of
                     (Inl e, w3) \<Rightarrow> (Inl e, w3)
                   | (Inr True, w3) \<Rightarrow> get str_other pf env endpoint ps False w3
                   | (Inr False, w3) \<Rightarrow>
                       (Inr [\<lparr> tc_type = ''text'', tc_text = JObj data \<rparr>], w3))
                else (Inr [\<lparr> tc_type = ''text'', tc_text = JObj data \<rparr>], w2))
           | (Inr _, w2) \<Rightarrow> (Inl AttributeError, w2)))"
  by pat_completeness auto
termination
  by (relation "measure (\<lambda>(str_other, pf, env, endpoint, ps, retry, w). if retry then 1 else 0)")
     auto

declare post.simps [simp del] get.simps [simp del]

subsection \<open>Vocabulary of the properties\<close>

text \<open>
  The keys of the configuration file, as \<^verbatim>\<open>_save_tokens_to_env\<close> recognises
  them: a line carries an access credential when it starts with one of the
  three aliases, a refresh credential when it starts with
  \<^verbatim>\<open>SLACK_REFRESH_TOKEN=\<close>, and is unrelated to credentials otherwise.
\<close>

definition is_access_line :: "string \<Rightarrow> bool" where
  "is_access_line line =
     (startswith line ''SLACK_TOKEN='' \<or> startswith line ''SLACK_BOT_TOKEN=''
      \<or> startswith line ''SLACK_USER_TOKEN='')"

definition is_refresh_line :: "string \<Rightarrow> bool" where
  "is_refresh_line line = startswith line ''SLACK_REFRESH_TOKEN=''"

definition is_credential_line :: "string \<Rightarrow> bool" where
  "is_credential_line line = (is_access_line line \<or> is_refresh_line line)"

text \<open>The first non-empty access source, in the fixed order; empty when all are.\<close>

definition first_source :: "environ \<Rightarrow> string" where
  "first_source env =
     (if getenv env ''SLACK_TOKEN'' [] \<noteq> [] then getenv env ''SLACK_TOKEN'' []
      else if getenv env ''SLACK_BOT_TOKEN'' [] \<noteq> [] then getenv env ''SLACK_BOT_TOKEN'' []
      else if getenv env ''SLACK_USER_TOKEN'' [] \<noteq> [] then getenv env ''SLACK_USER_TOKEN'' []
      else [])"

text \<open>The credential store: the pair in memory and the persisted file.\<close>

definition store :: "world \<Rightarrow> json \<times> json \<times> string option" where
  "store w = (st_access_token w, st_refresh_token w, env_file w)"

text \<open>
  The invariant of the data model: the pair is fully empty or has a
  non-empty access credential. A credential counts as empty when the code
  treats it so, by its truth value.
\<close>

definition pair_ok :: "world \<Rightarrow> bool" where
  "pair_ok w = (truthy (st_access_token w) \<or> \<not> truthy (st_refresh_token w))"

text \<open>A text that holds a line break in the sense of \<^verbatim>\<open>str.splitlines\<close>.\<close>

definition has_linebreak :: "string \<Rightarrow> bool" where
  "has_linebreak s = list_ex is_linebreak s"

text \<open>The requests the three network calls build.\<close>

definition post_request ::
  "(json \<Rightarrow> string) \<Rightarrow> string \<Rightarrow> params option \<Rightarrow> json \<Rightarrow> request"
where
  "post_request str_other endpoint ps token =
     \<lparr> req_verb = POST,
       req_url = SLACK_API_BASE @ ''/'' @ endpoint,
       req_headers =
         [(''Authorization'', ''Bearer '' @ format_value str_other token),
          (''Content-Type'', ''application/json; charset=utf-8'')],
       req_payload = Json_body (params_or_empty ps) \<rparr>"

definition get_request ::
  "(json \<Rightarrow> string) \<Rightarrow> string \<Rightarrow> params option \<Rightarrow> json \<Rightarrow> request"
where
  "get_request str_other endpoint ps token =
     \<lparr> req_verb = GET,
       req_url = SLACK_API_BASE @ ''/'' @ endpoint,
       req_headers = [(''Authorization'', ''Bearer '' @ format_value str_other token)],
       req_payload = Query_params (params_or_empty ps) \<rparr>"

definition rotate_request :: "json \<Rightarrow> request" where
  "rotate_request refresh =
     \<lparr> req_verb = POST,
       req_url = SLACK_API_BASE @ ''/tooling.tokens.rotate'',
       req_headers = [],
       req_payload = Form_data [(''refresh_token'', refresh)] \<rparr>"

text \<open>
  A dispatch round trip carries its parameters as a JSON body or a query
  string; the rotation request is the only form-encoded one.
\<close>

definition is_dispatch :: "request \<Rightarrow> bool" where
  "is_dispatch r = (case req_payload r of Form_data d \<Rightarrow> False | _ \<Rightarrow> True)"

text \<open>The output container around a decoded dictionary.\<close>

definition wrap :: "(string \<times> json) list \<Rightarrow> slack_result" where
  "wrap data = [\<lparr> tc_type = ''text'', tc_text = JObj data \<rparr>]"

text \<open>
  The dispatcher as the spec's state machine describes it, for any way of
  building the request from the credential: one attempt (read the
  credential, one round trip, decode), and on an expiry signal with
  \<open>retry_allowed\<close> one rotation and one more attempt. It is not recursive;
  \<open>post\<close> and \<open>get\<close> are compared with it below.
\<close>

definition attempt ::
  "(json \<Rightarrow> request) \<Rightarrow> platform \<Rightarrow> environ \<Rightarrow> world \<Rightarrow> ((string \<times> json) list) result"
where
  "attempt build pf env w =
     (case get_token env w of
        (Inl e, w1) \<Rightarrow> (Inl e, w1)
      | (Inr token, w1) \<Rightarrow>
          (case round_trip pf (build token) w1 of
             (Inl e, w2) \<Rightarrow> (Inl e, w2)
           | (Inr (JObj data), w2) \<Rightarrow> (Inr data, w2)
           | (Inr _, w2) \<Rightarrow> (Inl AttributeError, w2)))"

definition spec_dispatch ::
  "(json \<Rightarrow> string) \<Rightarrow> (json \<Rightarrow> request) \<Rightarrow> platform \<Rightarrow> environ \<Rightarrow> bool \<Rightarrow> world
   \<Rightarrow> slack_result result"
where
  "spec_dispatch str_other build pf env retry_allowed w =
     (case attempt build pf env w of
        (Inl e, w2) \<Rightarrow> (Inl e, w2)
      | (Inr data, w2) \<Rightarrow>
          (if token_expired data \<and> retry_allowed then
             (case refresh_token str_other pf w2 of
                (Inl e, w3) \<Rightarrow> (Inl e, w3)
              | (Inr True, w3) \<Rightarrow>
                  (case attempt build pf env w3 of
                     (Inl e, w4) \<Rightarrow> (Inl e, w4)
                   | (Inr data2, w4) \<Rightarrow> (Inr (wrap data2), w4))
              | (Inr False, w3) \<Rightarrow> (Inr (wrap data), w3))
           else (Inr (wrap data), w2)))"

text \<open>
  The GET counterpart of a request: a JSON body becomes the query string
  and only the bearer header is kept; the address is the same. The
  form-encoded rotation request is its own counterpart.
\<close>

definition as_get :: "request \<Rightarrow> request" where
  "as_get r =
     (case req_payload r of
        Json_body p \<Rightarrow>
          \<lparr> req_verb = GET, req_url = req_url r,
            req_headers = filter (\<lambda>h. fst h = ''Authorization'') (req_headers r),
            req_payload = Query_params p \<rparr>
      | _ \<Rightarrow> r)"

text \<open>
  Two runs, one through \<open>post\<close> and one through \<open>get\<close>, that started from
  the same state with \<open>pre\<close> already sent: same store, and the new requests
  of the second are the GET counterparts of those of the first.
\<close>

definition mirrored :: "request list \<Rightarrow> world \<Rightarrow> world \<Rightarrow> bool" where
  "mirrored pre wp wg =
     (store wp = store wg \<and> (\<exists>rs. sent wp = pre @ rs \<and> sent wg = pre @ map as_get rs))"

subsection \<open>Example inputs\<close>

text \<open>A stand-in for \<^verbatim>\<open>str()\<close> where every credential is a string.\<close>

definition str_example :: "json \<Rightarrow> string" where
  "str_example v = ''?''"

definition w_example :: world where
  "w_example = \<lparr> st_access_token = JStr ''xoxb-1'', st_refresh_token = JStr ''r1'',
                 env_file = None, sent = [] \<rparr>"

definition w_empty :: world where
  "w_empty = \<lparr> st_access_token = JStr [], st_refresh_token = JStr [],
               env_file = None, sent = [] \<rparr>"

definition w_no_refresh :: world where
  "w_no_refresh = \<lparr> st_access_token = JStr ''xoxb-1'', st_refresh_token = JStr [],
                    env_file = None, sent = [] \<rparr>"

definition env_none :: environ where
  "env_none = Map.empty"

definition env_bot :: environ where
  "env_bot = [''SLACK_BOT_TOKEN'' \<mapsto> ''xoxp-9'']"

definition env_refresh_only :: environ where
  "env_refresh_only = [''SLACK_REFRESH_TOKEN'' \<mapsto> ''r1'']"

definition file_with_duplicates :: string where
  "file_with_duplicates =
     ''FOO=1'' @ [CHR 0x0A] @ ''SLACK_BOT_TOKEN=a'' @ [CHR 0x0A] @ ''SLACK_TOKEN=b''
     @ [CHR 0x0A] @ ''BAR=2'' @ [CHR 0x0A]"

definition token_with_break :: string where
  "token_with_break = ''A'' @ [CHR 0x0A] @ ''SLACK_BOT_TOKEN=B''"

definition file_without_token :: string where
  "file_without_token = ''FOO=1'' @ [CHR 0x0A] @ ''BAR=2'' @ [CHR 0x0A]"

definition expired_body :: "(string \<times> json) list" where
  "expired_body = [(''ok'', JBool False), (''error'', JStr ''token_expired'')]"

definition pf_transport_failure :: platform where
  "pf_transport_failure n = Transport_failure"

definition pf_rejected :: platform where
  "pf_rejected n =
     Body (JObj [(''ok'', JBool False), (''error'', JStr ''invalid_refresh_token'')])"

text \<open>A success response whose new access credential is the number 123.\<close>

definition pf_rotated_number :: platform where
  "pf_rotated_number n = Body (JObj [(''ok'', JBool True), (''token'', JInt 123)])"

definition pf_rotated :: platform where
  "pf_rotated n = Body (JObj [(''ok'', JBool True), (''token'', JStr ''AAA'')])"

definition pf_expired :: platform where
  "pf_expired n = Body (JObj expired_body)"

text \<open>Expiry on every dispatch, a successful rotation in between.\<close>

definition pf_two :: platform where
  "pf_two n = (if n = 1 then Body (JObj [(''ok'', JBool True), (''token'', JStr ''AAA'')])
               else Body (JObj expired_body))"

subsection \<open>Classification\<close>

lemma startswith_both:
  assumes "startswith l p" and "startswith l q" and "length p \<le> length q"
  shows "startswith q p"
proof -
  have "take (length p) q = take (length p) (take (length q) l)"
    using assms(2) by (simp add: startswith_def)
  also have "\<dots> = take (length p) l"
    using assms(3) by (simp add: min_def)
  finally show ?thesis
    using assms(1) by (simp add: startswith_def)
qed

lemma prefix_clash:
  assumes "startswith t p" and "startswith t q" and "length p \<le> length q"
    and "\<not> startswith q p"
  shows False
  using startswith_both [OF assms(1-3)] assms(4) by simp

lemma type_user: "(get_token_type t = T_user) = startswith t ''xoxp-''"
proof -
  have "\<not> startswith t ''xoxb-''" if "startswith t ''xoxp-''"
    using prefix_clash [of t "''xoxb-''" "''xoxp-''"] that by (auto simp add: startswith_def)
  then show ?thesis by (auto simp add: get_token_type_def)
qed

lemma type_user_rotatable:
  "(get_token_type t = T_user_rotatable) = startswith t ''xoxe.xoxp-''"
proof -
  have "\<not> startswith t ''xoxb-''" if "startswith t ''xoxe.xoxp-''"
    using prefix_clash [of t "''xoxb-''" "''xoxe.xoxp-''"] that by (auto simp add: startswith_def)
  moreover have "\<not> startswith t ''xoxp-''" if "startswith t ''xoxe.xoxp-''"
    using prefix_clash [of t "''xoxp-''" "''xoxe.xoxp-''"] that by (auto simp add: startswith_def)
  ultimately show ?thesis by (auto simp add: get_token_type_def)
qed

text \<open>
  Claim C7. A credential that starts with the rotatable-user prefix
  \<^verbatim>\<open>xoxe.xoxp-\<close> is classified \<open>user_rotatable\<close>, never \<open>user\<close>, although
  \<^verbatim>\<open>xoxp-\<close> occurs inside that prefix; each of the five known prefixes maps
  to its kind, and a string that starts with none of them maps to \<open>unknown\<close>.
\<close>

theorem C7_classify_prefixes:
  "get_token_type (''xoxe.xoxp-'' @ s) = T_user_rotatable
   \<and> get_token_type (''xoxe.xoxp-'' @ s) \<noteq> T_user
   \<and> get_token_type (''xoxb-'' @ s) = T_bot
   \<and> get_token_type (''xoxp-'' @ s) = T_user
   \<and> get_token_type (''xoxe.xoxb-'' @ s) = T_bot_rotatable
   \<and> get_token_type (''xapp-'' @ s) = T_app_level
   \<and> (if startswith t ''xoxb-'' \<or> startswith t ''xoxp-'' \<or> startswith t ''xoxe.xoxp-''
          \<or> startswith t ''xoxe.xoxb-'' \<or> startswith t ''xapp-''
       then get_token_type t \<noteq> T_unknown else get_token_type t = T_unknown)"
  by (simp add: get_token_type_def startswith_def)

subsection \<open>The rewritten configuration file\<close>

lemma access_line_new: "is_access_line (''SLACK_TOKEN='' @ a)"
  by (simp add: is_access_line_def startswith_def)

lemma refresh_line_new: "is_refresh_line (''SLACK_REFRESH_TOKEN='' @ r)"
  by (simp add: is_refresh_line_def startswith_def)

lemma refresh_line_not_access: "\<not> is_access_line (''SLACK_REFRESH_TOKEN='' @ r)"
  by (simp add: is_access_line_def startswith_def)

lemma access_not_refresh:
  assumes "is_access_line l"
  shows "\<not> is_refresh_line l"
proof
  assume "is_refresh_line l"
  then have R: "startswith l ''SLACK_REFRESH_TOKEN=''"
    by (simp add: is_refresh_line_def)
  from assms consider
      (tok) "startswith l ''SLACK_TOKEN=''"
    | (bot) "startswith l ''SLACK_BOT_TOKEN=''"
    | (usr) "startswith l ''SLACK_USER_TOKEN=''"
    unfolding is_access_line_def by blast
  then show False
  proof cases
    case tok
    from startswith_both [OF tok R] show False by (simp add: startswith_def)
  next
    case bot
    from startswith_both [OF bot R] show False by (simp add: startswith_def)
  next
    case usr
    from startswith_both [OF usr R] show False by (simp add: startswith_def)
  qed
qed

text \<open>One iteration of the loop, in the vocabulary of the properties.\<close>

lemma save_loop_step:
  "save_loop f a r (line # lines) (nl, fa, fr) =
     (if is_access_line line then
        (if \<not> fa then save_loop f a r lines (nl @ [''SLACK_TOKEN='' @ format_value f a], True, fr)
         else save_loop f a r lines (nl, fa, fr))
      else if is_refresh_line line
      then save_loop f a r lines (nl @ [''SLACK_REFRESH_TOKEN='' @ format_value f r], fa, True)
      else save_loop f a r lines (nl @ [line], fa, fr))"
  by (simp add: is_access_line_def is_refresh_line_def del: append.simps)

lemmas line_facts = access_line_new refresh_line_new refresh_line_not_access
  access_not_refresh is_credential_line_def

lemma save_loop_unrelated:
  "filter (\<lambda>l. \<not> is_credential_line l) (fst (save_loop f a r ls (nl, fa, fr)))
   = filter (\<lambda>l. \<not> is_credential_line l) nl @ filter (\<lambda>l. \<not> is_credential_line l) ls"
  by (induction ls arbitrary: nl fa fr)
     (simp_all add: save_loop_step line_facts del: append.simps save_loop.simps(2))

lemma save_loop_found_access:
  "fst (snd (save_loop f a r ls (nl, fa, fr))) = (fa \<or> list_ex is_access_line ls)"
  by (induction ls arbitrary: nl fa fr)
     (simp_all add: save_loop_step line_facts del: append.simps save_loop.simps(2))

lemma save_loop_found_refresh:
  "snd (snd (save_loop f a r ls (nl, fa, fr))) = (fr \<or> list_ex is_refresh_line ls)"
  by (induction ls arbitrary: nl fa fr)
     (auto simp add: save_loop_step line_facts simp del: append.simps save_loop.simps(2))

lemma save_loop_access:
  "filter is_access_line (fst (save_loop f a r ls (nl, fa, fr)))
   = filter is_access_line nl @
     (if \<not> fa \<and> list_ex is_access_line ls then [''SLACK_TOKEN='' @ format_value f a] else [])"
  by (induction ls arbitrary: nl fa fr)
     (simp_all add: save_loop_step line_facts del: append.simps save_loop.simps(2))

lemma save_loop_length:
  "\<not> list_ex is_access_line ls \<Longrightarrow>
   length (fst (save_loop f a r ls (nl, fa, fr))) = length nl + length ls"
  by (induction ls arbitrary: nl fa fr)
     (simp_all add: save_loop_step del: append.simps save_loop.simps(2))

lemma save_loop_set:
  "set (fst (save_loop f a r ls (nl, fa, fr)))
   \<subseteq> set nl \<union> set ls
     \<union> {''SLACK_TOKEN='' @ format_value f a, ''SLACK_REFRESH_TOKEN='' @ format_value f r}"
proof (induction ls arbitrary: nl fa fr)
  case Nil
  show ?case by auto
next
  case (Cons l ls)
  show ?case
    using Cons [of "nl @ [''SLACK_TOKEN='' @ format_value f a]" True fr]
      Cons [of nl fa fr]
      Cons [of "nl @ [''SLACK_REFRESH_TOKEN='' @ format_value f r]" fa True]
      Cons [of "nl @ [l]" fa fr]
    by (auto simp add: save_loop_step simp del: append.simps save_loop.simps(2))
qed

text \<open>What \<^verbatim>\<open>new_lines\<close> holds, for any lines read.\<close>

lemma rewrite_lines_props:
  "filter (\<lambda>l. \<not> is_credential_line l) (rewrite_lines f a r ls)
     = filter (\<lambda>l. \<not> is_credential_line l) ls"
  "filter is_access_line (rewrite_lines f a r ls) = [''SLACK_TOKEN='' @ format_value f a]"
  "list_ex is_access_line ls
   \<or> drop (length ls) (rewrite_lines f a r ls)
       = (''SLACK_TOKEN='' @ format_value f a)
         # (if \<not> list_ex is_refresh_line ls \<and> truthy r
            then [''SLACK_REFRESH_TOKEN='' @ format_value f r] else [])"
  "set (rewrite_lines f a r ls)
   \<subseteq> set ls \<union> {''SLACK_TOKEN='' @ format_value f a, ''SLACK_REFRESH_TOKEN='' @ format_value f r}"
proof -
  obtain nl fa fr where sl: "save_loop f a r ls ([], False, False) = (nl, fa, fr)"
    by (cases "save_loop f a r ls ([], False, False)")
  have fa: "fa = list_ex is_access_line ls"
    using save_loop_found_access [of f a r ls "[]" False False] sl by simp
  have fr: "fr = list_ex is_refresh_line ls"
    using save_loop_found_refresh [of f a r ls "[]" False False] sl by simp
  have un: "filter (\<lambda>l. \<not> is_credential_line l) nl = filter (\<lambda>l. \<not> is_credential_line l) ls"
    using save_loop_unrelated [of f a r ls "[]" False False] sl by simp
  have ac: "filter is_access_line nl = (if fa then [''SLACK_TOKEN='' @ format_value f a] else [])"
    using save_loop_access [of f a r ls "[]" False False] sl fa by simp
  have len: "\<not> fa \<Longrightarrow> length nl = length ls"
    using save_loop_length [of ls f a r "[]" False False] sl fa by simp
  have sub: "set nl \<subseteq> set ls
       \<union> {''SLACK_TOKEN='' @ format_value f a, ''SLACK_REFRESH_TOKEN='' @ format_value f r}"
    using save_loop_set [of f a r ls "[]" False False] sl by simp
  have nl_eq: "rewrite_lines f a r ls
                 = nl @ (if \<not> fa then [''SLACK_TOKEN='' @ format_value f a] else [])
                 @ (if \<not> fr \<and> truthy r then [''SLACK_REFRESH_TOKEN='' @ format_value f r]
                    else [])"
    unfolding rewrite_lines_def sl by (simp del: append.simps)
  show "filter (\<lambda>l. \<not> is_credential_line l) (rewrite_lines f a r ls)
          = filter (\<lambda>l. \<not> is_credential_line l) ls"
    unfolding nl_eq using un by (simp add: line_facts del: append.simps)
  show "filter is_access_line (rewrite_lines f a r ls) = [''SLACK_TOKEN='' @ format_value f a]"
    unfolding nl_eq using ac by (simp add: line_facts del: append.simps)
  show "list_ex is_access_line ls
   \<or> drop (length ls) (rewrite_lines f a r ls)
       = (''SLACK_TOKEN='' @ format_value f a)
         # (if \<not> list_ex is_refresh_line ls \<and> truthy r
            then [''SLACK_REFRESH_TOKEN='' @ format_value f r] else [])"
  proof (cases fa)
    case True
    with fa show ?thesis by simp
  next
    case False
    with len have "length nl = length ls" by simp
    then show ?thesis unfolding nl_eq using False fr by (simp del: append.simps)
  qed
  show "set (rewrite_lines f a r ls)
   \<subseteq> set ls \<union> {''SLACK_TOKEN='' @ format_value f a, ''SLACK_REFRESH_TOKEN='' @ format_value f r}"
    unfolding nl_eq using sub by (auto simp del: append.simps)
qed

subsection \<open>Reading back the file written\<close>

lemma splitlines_from_line:
  "\<not> list_ex is_linebreak l \<Longrightarrow>
   splitlines_from cur (l @ CHR 0x0A # rest) = (cur @ l) # splitlines_from [] rest"
proof (induction l arbitrary: cur)
  case Nil
  show ?case by (cases rest) (simp_all add: is_linebreak_def)
next
  case (Cons x xs)
  from Cons.prems have x: "\<not> is_linebreak x" and xs: "\<not> list_ex is_linebreak xs"
    by simp_all
  from x have cr: "x \<noteq> CHR 0x0D" by (auto simp add: is_linebreak_def)
  obtain d cs where dc: "xs @ CHR 0x0A # rest = d # cs"
    by (cases "xs @ CHR 0x0A # rest") simp_all
  have "splitlines_from cur ((x # xs) @ CHR 0x0A # rest) = splitlines_from cur (x # d # cs)"
    using dc by simp
  also have "\<dots> = splitlines_from (cur @ [x]) (d # cs)"
    using x cr by simp
  also have "\<dots> = splitlines_from (cur @ [x]) (xs @ CHR 0x0A # rest)"
    using dc by simp
  also have "\<dots> = ((cur @ [x]) @ xs) # splitlines_from [] rest"
    using Cons.IH [OF xs] .
  finally show ?case by simp
qed

lemma splitlines_of_lines:
  "\<forall>l \<in> set ls. \<not> has_linebreak l \<Longrightarrow>
   splitlines (concat (map (\<lambda>l. l @ [CHR 0x0A]) ls)) = ls"
proof (induction ls)
  case Nil
  show ?case by (simp add: splitlines_def)
next
  case (Cons l ls)
  then have l: "\<not> list_ex is_linebreak l"
    and IH: "splitlines_from [] (concat (map (\<lambda>l. l @ [CHR 0x0A]) ls)) = ls"
    by (simp_all add: has_linebreak_def splitlines_def)
  show ?case
    using splitlines_from_line [OF l, of "[]" "concat (map (\<lambda>l. l @ [CHR 0x0A]) ls)"] IH
    by (simp add: splitlines_def)
qed

lemma join_concat:
  "ls \<noteq> [] \<Longrightarrow> join [CHR 0x0A] ls @ [CHR 0x0A] = concat (map (\<lambda>l. l @ [CHR 0x0A]) ls)"
  by (induction "[CHR 0x0A]" ls rule: join.induct) simp_all

lemma splitlines_from_no_break:
  "\<not> list_ex is_linebreak cur \<Longrightarrow> l \<in> set (splitlines_from cur s) \<Longrightarrow> \<not> has_linebreak l"
  by (induction cur s rule: splitlines_from.induct)
     (auto simp add: has_linebreak_def split: if_splits)

lemma splitlines_no_break: "l \<in> set (splitlines s) \<Longrightarrow> \<not> has_linebreak l"
  using splitlines_from_no_break [of "[]" l s] by (simp add: splitlines_def)

lemma key_no_break:
  "has_linebreak (''SLACK_TOKEN='' @ x) = has_linebreak x"
  "has_linebreak (''SLACK_REFRESH_TOKEN='' @ x) = has_linebreak x"
  by (simp_all add: has_linebreak_def is_linebreak_def)

text \<open>
  When the formatted credentials hold no line break, the file written
  reads back as exactly the lines \<^verbatim>\<open>new_lines\<close>.
\<close>

lemma written_reads_back:
  assumes "\<not> has_linebreak (format_value f a)" and "\<not> has_linebreak (format_value f r)"
  shows "splitlines (join [CHR 0x0A] (rewrite_lines f a r (splitlines content)) @ [CHR 0x0A])
           = rewrite_lines f a r (splitlines content)"
proof -
  let ?new = "rewrite_lines f a r (splitlines content)"
  have ne: "?new \<noteq> []"
    using rewrite_lines_props(2) [of f a r "splitlines content"] by auto
  have "\<not> has_linebreak l" if "l \<in> set ?new" for l
  proof -
    from that rewrite_lines_props(4) [of f a r "splitlines content"]
    consider "l \<in> set (splitlines content)"
      | "l = ''SLACK_TOKEN='' @ format_value f a"
      | "l = ''SLACK_REFRESH_TOKEN='' @ format_value f r"
      by blast
    then show ?thesis
    proof cases
      case 1
      then show ?thesis by (rule splitlines_no_break)
    next
      case 2
      with assms(1) show ?thesis by (simp only: key_no_break not_False_eq_True)
    next
      case 3
      with assms(2) show ?thesis by (simp only: key_no_break not_False_eq_True)
    qed
  qed
  then have "splitlines (concat (map (\<lambda>l. l @ [CHR 0x0A]) ?new)) = ?new"
    by (intro splitlines_of_lines) blast
  with join_concat [OF ne] show ?thesis by simp
qed

text \<open>
  Claim C2, as amended. When the configuration file exists and the new
  credentials, as the f-strings format them, hold no line break,
  \<^verbatim>\<open>_save_tokens_to_env\<close> stores the new pair in memory and writes a file
  whose lines, in the sense of \<^verbatim>\<open>str.splitlines\<close>, are these: the lines
  whose key is unrelated to credentials are those of the file read,
  unchanged and in the same order; exactly one line carries an access
  credential, and it is \<^verbatim>\<open>SLACK_TOKEN=\<close> followed by the new value
  (duplicates and aliases are collapsed into it); and when no line carried
  an access credential, the canonical line is appended after the lines
  read (followed only by the refresh line, when that is appended as well).
\<close>

theorem C2_persist_rewrites_file:
  assumes "env_file w = Some content"
    and "\<not> has_linebreak (format_value str_other a)"
    and "\<not> has_linebreak (format_value str_other r)"
  shows "\<exists>written.
           env_file (save_tokens_to_env str_other a r w) = Some written
         \<and> st_access_token (save_tokens_to_env str_other a r w) = a
         \<and> st_refresh_token (save_tokens_to_env str_other a r w) = r
         \<and> splitlines written = rewrite_lines str_other a r (splitlines content)
         \<and> filter (\<lambda>l. \<not> is_credential_line l) (splitlines written)
             = filter (\<lambda>l. \<not> is_credential_line l) (splitlines content)
         \<and> filter is_access_line (splitlines written)
             = [''SLACK_TOKEN='' @ format_value str_other a]
         \<and> (list_ex is_access_line (splitlines content)
            \<or> drop (length (splitlines content)) (splitlines written)
                = (''SLACK_TOKEN='' @ format_value str_other a)
                  # (if \<not> list_ex is_refresh_line (splitlines content) \<and> truthy r
                     then [''SLACK_REFRESH_TOKEN='' @ format_value str_other r] else []))"
proof -
  let ?new = "rewrite_lines str_other a r (splitlines content)"
  let ?written = "join [CHR 0x0A] ?new @ [CHR 0x0A]"
  have "env_file (save_tokens_to_env str_other a r w) = Some ?written"
    and "st_access_token (save_tokens_to_env str_other a r w) = a"
    and "st_refresh_token (save_tokens_to_env str_other a r w) = r"
    using assms(1) by (simp_all add: save_tokens_to_env_def)
  moreover have "splitlines ?written = ?new"
    using assms(2,3) by (rule written_reads_back)
  ultimately show ?thesis
    using rewrite_lines_props(1-3) [where f = str_other and a = a and r = r
        and ls = "splitlines content"]
    by (intro exI [of _ ?written]) (simp del: append.simps)
qed

theorem C2_persist_rewrites_file_witness:
  "env_file (save_tokens_to_env str_example (JStr ''xoxb-new'') (JStr ''r2'')
       (w_example\<lparr>env_file := Some file_with_duplicates\<rparr>))
     = Some (''FOO=1'' @ [CHR 0x0A] @ ''SLACK_TOKEN=xoxb-new'' @ [CHR 0x0A] @ ''BAR=2''
             @ [CHR 0x0A] @ ''SLACK_REFRESH_TOKEN=r2'' @ [CHR 0x0A])
   \<and> splitlines (''FOO=1'' @ [CHR 0x0A] @ ''SLACK_TOKEN=xoxb-new'' @ [CHR 0x0A] @ ''BAR=2''
             @ [CHR 0x0A] @ ''SLACK_REFRESH_TOKEN=r2'' @ [CHR 0x0A])
     = [''FOO=1'', ''SLACK_TOKEN=xoxb-new'', ''BAR=2'', ''SLACK_REFRESH_TOKEN=r2'']
   \<and> env_file (save_tokens_to_env str_example (JStr ''xoxb-new'') (JStr [])
       (w_example\<lparr>env_file := Some file_without_token\<rparr>))
     = Some (''FOO=1'' @ [CHR 0x0A] @ ''BAR=2'' @ [CHR 0x0A] @ ''SLACK_TOKEN=xoxb-new''
             @ [CHR 0x0A])
   \<and> \<not> list_ex is_access_line (splitlines file_without_token)
   \<and> \<not> has_linebreak (format_value str_example (JStr ''xoxb-new''))"
proof -
  have 1: "env_file (w_example\<lparr>env_file := Some file_with_duplicates\<rparr>)
             = Some file_with_duplicates"
    and 2: "env_file (w_example\<lparr>env_file := Some file_without_token\<rparr>)
             = Some file_without_token"
    by simp_all
  have 3: "\<not> has_linebreak (format_value str_example (JStr ''xoxb-new''))"
    and 4: "\<not> has_linebreak (format_value str_example (JStr ''r2''))"
    and 5: "\<not> has_linebreak (format_value str_example (JStr []))"
    by (simp_all add: has_linebreak_def is_linebreak_def format_value_def)
  have 6: "rewrite_lines str_example (JStr ''xoxb-new'') (JStr ''r2'')
             (splitlines file_with_duplicates)
             = [''FOO=1'', ''SLACK_TOKEN=xoxb-new'', ''BAR=2'', ''SLACK_REFRESH_TOKEN=r2'']"
    by (simp add: rewrite_lines_def splitlines_def is_linebreak_def startswith_def
        file_with_duplicates_def format_value_def)
  have 7: "splitlines file_without_token = [''FOO=1'', ''BAR=2'']"
    by (simp add: splitlines_def is_linebreak_def file_without_token_def)
  have 8: "rewrite_lines str_example (JStr ''xoxb-new'') (JStr []) [''FOO=1'', ''BAR=2'']
             = [''FOO=1'', ''BAR=2'', ''SLACK_TOKEN=xoxb-new'']"
    by (simp add: rewrite_lines_def startswith_def format_value_def)
  have 9: "\<not> list_ex is_access_line [''FOO=1'', ''BAR=2'']"
    by (simp add: is_access_line_def startswith_def)
  have 10: "splitlines (''FOO=1'' @ [CHR 0x0A] @ ''SLACK_TOKEN=xoxb-new'' @ [CHR 0x0A]
             @ ''BAR=2'' @ [CHR 0x0A] @ ''SLACK_REFRESH_TOKEN=r2'' @ [CHR 0x0A])
     = [''FOO=1'', ''SLACK_TOKEN=xoxb-new'', ''BAR=2'', ''SLACK_REFRESH_TOKEN=r2'']"
    by (simp add: splitlines_def is_linebreak_def)
  have 11: "env_file (save_tokens_to_env str_example (JStr ''xoxb-new'') (JStr ''r2'')
       (w_example\<lparr>env_file := Some file_with_duplicates\<rparr>))
     = Some (''FOO=1'' @ [CHR 0x0A] @ ''SLACK_TOKEN=xoxb-new'' @ [CHR 0x0A] @ ''BAR=2''
             @ [CHR 0x0A] @ ''SLACK_REFRESH_TOKEN=r2'' @ [CHR 0x0A])"
    by (simp add: save_tokens_to_env_def 6)
  have 12: "env_file (save_tokens_to_env str_example (JStr ''xoxb-new'') (JStr [])
       (w_example\<lparr>env_file := Some file_without_token\<rparr>))
     = Some (''FOO=1'' @ [CHR 0x0A] @ ''BAR=2'' @ [CHR 0x0A] @ ''SLACK_TOKEN=xoxb-new''
             @ [CHR 0x0A])"
    by (simp add: save_tokens_to_env_def 7 8)
  from C2_persist_rewrites_file [OF 1 3 4] C2_persist_rewrites_file [OF 2 3 5]
    3 7 9 10 11 12
  show ?thesis by simp
qed

text \<open>
  The claim as stated, for every new credential pair, fails on a
  credential that holds a line break: written after a file without access
  line, the new value \<^verbatim>\<open>A\<close>, line feed, \<^verbatim>\<open>SLACK_BOT_TOKEN=B\<close> leaves two
  lines that carry an access credential, neither of them \<^verbatim>\<open>SLACK_TOKEN=\<close>
  followed by the new value.
\<close>

theorem C2_counterexample:
  "env_file (save_tokens_to_env str_example (JStr token_with_break) (JStr [])
       (w_example\<lparr>env_file := Some file_without_token\<rparr>))
     = Some (''FOO=1'' @ [CHR 0x0A] @ ''BAR=2'' @ [CHR 0x0A] @ ''SLACK_TOKEN=A'' @ [CHR 0x0A]
             @ ''SLACK_BOT_TOKEN=B'' @ [CHR 0x0A])
   \<and> filter is_access_line
        (splitlines (''FOO=1'' @ [CHR 0x0A] @ ''BAR=2'' @ [CHR 0x0A] @ ''SLACK_TOKEN=A''
           @ [CHR 0x0A] @ ''SLACK_BOT_TOKEN=B'' @ [CHR 0x0A]))
     = [''SLACK_TOKEN=A'', ''SLACK_BOT_TOKEN=B'']
   \<and> ''SLACK_TOKEN='' @ token_with_break \<noteq> ''SLACK_TOKEN=A''
   \<and> ''SLACK_TOKEN='' @ token_with_break \<noteq> ''SLACK_BOT_TOKEN=B''"
  by (simp add: save_tokens_to_env_def rewrite_lines_def splitlines_def is_linebreak_def
      startswith_def file_without_token_def token_with_break_def format_value_def
      is_access_line_def)

subsection \<open>Reading and reloading the credential\<close>

lemma load_access: "st_access_token (load_token_from_env env w) = JStr (first_source env)"
  by (simp add: load_token_from_env_def first_source_def py_or_def)

text \<open>
  Claim C4, as amended. \<^verbatim>\<open>_load_token_from_env\<close> assigns both credentials
  whatever the store held: the access credential becomes the first
  non-empty of \<^verbatim>\<open>SLACK_TOKEN\<close>, \<^verbatim>\<open>SLACK_BOT_TOKEN\<close>, \<^verbatim>\<open>SLACK_USER_TOKEN\<close> in
  that order, or the empty string when all are empty, and the refresh
  credential becomes the value of \<^verbatim>\<open>SLACK_REFRESH_TOKEN\<close>, or the empty
  string when it is unset. The file and the network are not touched.
\<close>

theorem C4_reload_overwrites:
  "st_access_token (load_token_from_env env w) = JStr (first_source env)
   \<and> st_refresh_token (load_token_from_env env w)
       = JStr (getenv env ''SLACK_REFRESH_TOKEN'' [])
   \<and> env_file (load_token_from_env env w) = env_file w
   \<and> sent (load_token_from_env env w) = sent w"
  by (simp add: load_token_from_env_def first_source_def py_or_def)

theorem C4_reload_overwrites_witness:
  "st_access_token (load_token_from_env env_bot w_example) = JStr ''xoxp-9''
   \<and> st_refresh_token (load_token_from_env env_bot w_example) = JStr []"
  using C4_reload_overwrites [of env_bot w_example]
  by (simp add: first_source_def getenv_def env_bot_def)

text \<open>
  The claim as stated fails: with every source empty, a store holding
  \<^verbatim>\<open>xoxb-1\<close> and \<^verbatim>\<open>r1\<close> is cleared by the reload.
\<close>

theorem C4_counterexample:
  "st_access_token w_example = JStr ''xoxb-1'' \<and> st_refresh_token w_example = JStr ''r1''
   \<and> getenv env_none ''SLACK_TOKEN'' [] = [] \<and> getenv env_none ''SLACK_BOT_TOKEN'' [] = []
   \<and> getenv env_none ''SLACK_USER_TOKEN'' [] = []
   \<and> getenv env_none ''SLACK_REFRESH_TOKEN'' [] = []
   \<and> st_access_token (load_token_from_env env_none w_example) = JStr []
   \<and> st_refresh_token (load_token_from_env env_none w_example) = JStr []"
  by (simp add: load_token_from_env_def w_example_def getenv_def py_or_def env_none_def)

text \<open>
  Claim C5. \<^verbatim>\<open>_get_token\<close> raises \<^verbatim>\<open>ValueError\<close> (the spec's
  \<open>CredentialMissing\<close>) if and only if the access credential is still empty
  after the reload it attempts when the credential in memory is empty, that
  is, if and only if the credential in memory is empty and every access
  source is empty. A non-empty credential in memory is returned as it is;
  with an empty one, the first non-empty source is stored and returned
  without error. Empty is what \<^verbatim>\<open>not token\<close> tests: for a string, the
  empty string.
\<close>

theorem C5_get_token_raises_iff:
  "(fst (get_token env w) = Inl ValueError)
     = (\<not> truthy (st_access_token (snd (get_token env w))))
   \<and> (fst (get_token env w) = Inl ValueError)
     = (\<not> truthy (st_access_token w) \<and> first_source env = [])
   \<and> get_token env w =
       (if truthy (st_access_token w) then (Inr (st_access_token w), w)
        else if first_source env \<noteq> []
        then (Inr (JStr (first_source env)), load_token_from_env env w)
        else (Inl ValueError, load_token_from_env env w))
   \<and> truthy (JStr s) = (s \<noteq> [])"
  by (simp add: get_token_def Let_def load_access)

theorem C5_get_token_raises_iff_witness:
  "fst (get_token env_none w_empty) = Inl ValueError
   \<and> fst (get_token env_bot w_empty) = Inr (JStr ''xoxp-9'')
   \<and> fst (get_token env_bot w_example) = Inr (JStr ''xoxb-1'')"
  using C5_get_token_raises_iff [of env_none w_empty] C5_get_token_raises_iff [of env_bot w_empty]
    C5_get_token_raises_iff [of env_bot w_example]
  by (simp add: first_source_def getenv_def env_bot_def env_none_def w_empty_def w_example_def)

text \<open>
  Claim C8, as amended. \<^verbatim>\<open>_is_user_token\<close> returns what \<^verbatim>\<open>_get_token\<close>
  yields, classified: true if and only if the credential read is a string
  that starts with \<^verbatim>\<open>xoxp-\<close> or \<^verbatim>\<open>xoxe.xoxp-\<close> (kind \<open>user\<close> or
  \<open>user_rotatable\<close>), false for every other non-empty string, and when the
  credential is empty, also after the reload, the \<^verbatim>\<open>ValueError\<close> of
  \<^verbatim>\<open>_get_token\<close> propagates. (A credential that is not a string, which only
  a rotation response can leave in the store, has no \<^verbatim>\<open>startswith\<close>.)
\<close>

theorem C8_is_user_token:
  "fst (is_user_token env w) =
     (case fst (get_token env w) of
        Inl e \<Rightarrow> Inl ValueError
      | Inr (JStr token) \<Rightarrow>
          Inr (get_token_type token = T_user \<or> get_token_type token = T_user_rotatable)
      | Inr _ \<Rightarrow> Inl AttributeError)
   \<and> (fst (is_user_token env w) = Inr True)
       = (\<exists>token. fst (get_token env w) = Inr (JStr token)
            \<and> (startswith token ''xoxp-'' \<or> startswith token ''xoxe.xoxp-''))
   \<and> (fst (is_user_token env w) = Inl ValueError)
       = (\<not> truthy (st_access_token w) \<and> first_source env = [])"
proof -
  obtain r w1 where g: "get_token env w = (r, w1)" by (cases "get_token env w")
  have v: "(r = Inl ValueError) = (\<not> truthy (st_access_token w) \<and> first_source env = [])"
    and e: "\<And>e. r = Inl e \<Longrightarrow> e = ValueError"
    using g by (auto simp add: get_token_def Let_def load_access split: if_splits)
  show ?thesis
    using g v e
    by (auto simp add: is_user_token_def type_user type_user_rotatable
        split: sum.splits json.splits)
qed

theorem C8_is_user_token_witness:
  "fst (is_user_token env_bot w_empty) = Inr True
   \<and> fst (is_user_token env_none w_example) = Inr False"
  using C8_is_user_token [of env_bot w_empty] C8_is_user_token [of env_none w_example]
  by (simp add: get_token_def Let_def load_token_from_env_def py_or_def getenv_def env_bot_def
      env_none_def w_empty_def w_example_def get_token_type_def startswith_def)

text \<open>
  The claim as stated fails on the empty credential: with nothing in
  memory and every source empty, \<^verbatim>\<open>_is_user_token\<close> raises instead of
  returning false.
\<close>

theorem C8_counterexample:
  "st_access_token w_empty = JStr [] \<and> first_source env_none = []
   \<and> fst (is_user_token env_none w_empty) = Inl ValueError
   \<and> fst (is_user_token env_none w_empty) \<noteq> Inr False"
  by (simp add: is_user_token_def get_token_def load_token_from_env_def w_empty_def getenv_def
      py_or_def first_source_def env_none_def Let_def)

subsection \<open>Rotation\<close>

text \<open>
  Claim C3, as amended. With a refresh credential in the store,
  \<^verbatim>\<open>_refresh_token\<close> issues one request, and on every outcome other than a
  decoded object with a true success flag and a non-empty \<^verbatim>\<open>token\<close> the
  credentials in memory and the file are unchanged. It returns false when
  the decoded object has a false success flag or an empty new access
  credential (absent, or of a false truth value). On a transport failure,
  on a body that is not JSON and on a decoded value that is not an object
  it does not return false: the exception propagates, as the code catches
  none. On the remaining outcome it returns true and stores the two values
  of the response as they are, whatever their type.
\<close>

theorem C3_refresh_failure:
  assumes "truthy (st_refresh_token w)"
  shows "case pf (length (sent w)) of
           Transport_failure \<Rightarrow>
             fst (refresh_token str_other pf w) = Inl TransportError
             \<and> store (snd (refresh_token str_other pf w)) = store w
         | Not_json \<Rightarrow>
             fst (refresh_token str_other pf w) = Inl JSONDecodeError
             \<and> store (snd (refresh_token str_other pf w)) = store w
         | Body (JObj data) \<Rightarrow>
             if truthy_opt (dict_get data ''ok'')
                \<and> truthy (dict_get_default data ''token'' (JStr []))
             then fst (refresh_token str_other pf w) = Inr True
                  \<and> st_access_token (snd (refresh_token str_other pf w))
                      = dict_get_default data ''token'' (JStr [])
                  \<and> st_refresh_token (snd (refresh_token str_other pf w))
                      = dict_get_default data ''refresh_token'' (JStr [])
             else fst (refresh_token str_other pf w) = Inr False
                  \<and> store (snd (refresh_token str_other pf w)) = store w
         | Body _ \<Rightarrow>
             fst (refresh_token str_other pf w) = Inl AttributeError
             \<and> store (snd (refresh_token str_other pf w)) = store w"
  using assms
  by (simp add: refresh_token_def round_trip_def Let_def store_def save_tokens_to_env_def
      split: outcome.splits json.splits option.splits)

theorem C3_refresh_failure_witness:
  "truthy (st_refresh_token w_example)
   \<and> fst (refresh_token str_example pf_rejected w_example) = Inr False
   \<and> store (snd (refresh_token str_example pf_rejected w_example)) = store w_example
   \<and> fst (refresh_token str_example pf_rotated_number w_example) = Inr True
   \<and> st_access_token (snd (refresh_token str_example pf_rotated_number w_example)) = JInt 123
   \<and> st_refresh_token (snd (refresh_token str_example pf_rotated_number w_example)) = JStr []"
proof -
  have 1: "truthy (st_refresh_token w_example)"
    by (simp add: w_example_def)
  from C3_refresh_failure [OF 1, where pf = pf_rejected and str_other = str_example]
    C3_refresh_failure [OF 1, where pf = pf_rotated_number and str_other = str_example] 1
  show ?thesis
    by (simp add: pf_rejected_def pf_rotated_number_def truthy_opt_def dict_get_def
        dict_get_default_def)
qed

text \<open>
  The claim as stated fails on a transport failure: the call raises
  instead of returning false.
\<close>

theorem C3_counterexample:
  "truthy (st_refresh_token w_example)
   \<and> pf_transport_failure (length (sent w_example)) = Transport_failure
   \<and> fst (refresh_token str_example pf_transport_failure w_example) = Inl TransportError
   \<and> fst (refresh_token str_example pf_transport_failure w_example) \<noteq> Inr False"
  by (simp add: refresh_token_def round_trip_def w_example_def Let_def pf_transport_failure_def)

text \<open>
  Claim C9, as amended. The initial state and the state after a reload
  satisfy the invariant (fully empty, or a non-empty access credential)
  exactly when some access source is non-empty or \<^verbatim>\<open>SLACK_REFRESH_TOKEN\<close> is
  empty: the two credentials are read independently. A rotation that
  succeeds, the only caller of the persist operation, leaves a non-empty
  access credential, and every rotation preserves the invariant.
\<close>

theorem C9_pair_invariant:
  "pair_ok (token_state_init env file)
     = (first_source env \<noteq> [] \<or> getenv env ''SLACK_REFRESH_TOKEN'' [] = [])
   \<and> pair_ok (load_token_from_env env w)
     = (first_source env \<noteq> [] \<or> getenv env ''SLACK_REFRESH_TOKEN'' [] = [])
   \<and> (fst (refresh_token str_other pf w) = Inr True
        \<longrightarrow> truthy (st_access_token (snd (refresh_token str_other pf w))))
   \<and> (pair_ok w \<longrightarrow> pair_ok (snd (refresh_token str_other pf w)))"
  by (auto simp add: pair_ok_def token_state_init_def load_token_from_env_def first_source_def
      py_or_def refresh_token_def round_trip_def save_tokens_to_env_def Let_def
      split: outcome.splits json.splits option.splits)

theorem C9_pair_invariant_witness:
  "fst (refresh_token str_example pf_rotated w_example) = Inr True
   \<and> pair_ok w_example
   \<and> truthy (st_access_token (snd (refresh_token str_example pf_rotated w_example)))
   \<and> pair_ok (snd (refresh_token str_example pf_rotated w_example))
   \<and> pair_ok (token_state_init env_bot None)"
proof -
  have 1: "fst (refresh_token str_example pf_rotated w_example) = Inr True"
    by (simp add: refresh_token_def round_trip_def w_example_def Let_def truthy_opt_def
        dict_get_def dict_get_default_def pf_rotated_def)
  have 2: "pair_ok w_example"
    by (simp add: pair_ok_def w_example_def)
  have 3: "first_source env_bot \<noteq> []"
    by (simp add: first_source_def getenv_def env_bot_def)
  from 1 2 3 C9_pair_invariant [of env_bot None w_example str_example pf_rotated]
  show ?thesis by simp
qed

text \<open>
  The claim as stated fails at the initial seeding: with only
  \<^verbatim>\<open>SLACK_REFRESH_TOKEN\<close> set, the access credential is empty and the
  refresh credential is not.
\<close>

theorem C9_counterexample:
  "st_access_token (token_state_init env_refresh_only None) = JStr []
   \<and> st_refresh_token (token_state_init env_refresh_only None) = JStr ''r1''
   \<and> \<not> pair_ok (token_state_init env_refresh_only None)"
  by (simp add: pair_ok_def token_state_init_def getenv_def py_or_def env_refresh_only_def)

subsection \<open>Expiry without a refresh credential\<close>

text \<open>
  Claim C6. When the first attempt of a logical call (retry allowed)
  returns an expiry signal and the stored refresh credential is empty,
  \<^verbatim>\<open>_refresh_token\<close> returns false and leaves the state as it is, so it
  issues no request, and the result of \<^verbatim>\<open>_post\<close> and of \<^verbatim>\<open>_get\<close> is the
  expiry payload of that first attempt, wrapped, not an exception; the one
  dispatch request is the only request of the call.
\<close>

theorem C6_expiry_without_refresh_token:
  assumes "get_token env w = (Inr token, w1)"
    and "\<not> truthy (st_refresh_token w1)"
    and "pf (length (sent w1)) = Body (JObj data)"
    and "token_expired data"
  shows "post str_other pf env endpoint ps True w
           = (Inr [\<lparr> tc_type = ''text'', tc_text = JObj data \<rparr>],
              w1\<lparr> sent := sent w1 @ [post_request str_other endpoint ps token] \<rparr>)
       \<and> get str_other pf env endpoint ps True w
           = (Inr [\<lparr> tc_type = ''text'', tc_text = JObj data \<rparr>],
              w1\<lparr> sent := sent w1 @ [get_request str_other endpoint ps token] \<rparr>)
       \<and> refresh_token str_other pf
             (w1\<lparr> sent := sent w1 @ [post_request str_other endpoint ps token] \<rparr>)
           = (Inr False, w1\<lparr> sent := sent w1 @ [post_request str_other endpoint ps token] \<rparr>)
       \<and> refresh_token str_other pf
             (w1\<lparr> sent := sent w1 @ [get_request str_other endpoint ps token] \<rparr>)
           = (Inr False, w1\<lparr> sent := sent w1 @ [get_request str_other endpoint ps token] \<rparr>)"
  using assms
  by (simp add: post.simps [of str_other pf env endpoint ps True w]
      get.simps [of str_other pf env endpoint ps True w]
      round_trip_def refresh_token_def Let_def post_request_def get_request_def)

theorem C6_expiry_without_refresh_token_witness:
  "get_token env_none w_no_refresh = (Inr (JStr ''xoxb-1''), w_no_refresh)
   \<and> \<not> truthy (st_refresh_token w_no_refresh)
   \<and> pf_expired (length (sent w_no_refresh)) = Body (JObj expired_body)
   \<and> token_expired expired_body
   \<and> fst (post str_example pf_expired env_none ''chat.postMessage'' None True w_no_refresh)
       = Inr [\<lparr> tc_type = ''text'', tc_text = JObj expired_body \<rparr>]
   \<and> sent (snd (post str_example pf_expired env_none ''chat.postMessage'' None True
        w_no_refresh))
       = [post_request str_example ''chat.postMessage'' None (JStr ''xoxb-1'')]"
proof -
  have 1: "get_token env_none w_no_refresh = (Inr (JStr ''xoxb-1''), w_no_refresh)"
    by (simp add: get_token_def w_no_refresh_def Let_def)
  have 2: "token_expired expired_body"
    by (simp add: token_expired_def expired_body_def truthy_opt_def dict_get_def)
  have 3: "\<not> truthy (st_refresh_token w_no_refresh)"
    by (simp add: w_no_refresh_def)
  have 4: "pf_expired (length (sent w_no_refresh)) = Body (JObj expired_body)"
    by (simp add: pf_expired_def)
  have 5: "sent w_no_refresh = []"
    by (simp add: w_no_refresh_def)
  from C6_expiry_without_refresh_token
         [where pf = pf_expired and endpoint = "''chat.postMessage''" and ps = None
            and str_other = str_example,
          OF 1 3 4 2] 1 2 3 4 5
  show ?thesis by simp
qed

subsection \<open>The dispatcher as a two-attempt sequence\<close>

lemma post_no_retry:
  "post str_other pf env endpoint ps False w = spec_dispatch str_other (post_request str_other endpoint ps) pf env False w"
  by (subst post.simps)
     (simp add: spec_dispatch_def attempt_def post_request_def wrap_def
        split: prod.splits sum.splits json.splits)

lemma post_spec_dispatch:
  "post str_other pf env endpoint ps retry w = spec_dispatch str_other (post_request str_other endpoint ps) pf env retry w"
proof (cases retry)
  case False
  then show ?thesis by (simp add: post_no_retry)
next
  case True
  have "post str_other pf env endpoint ps True w = spec_dispatch str_other (post_request str_other endpoint ps) pf env True w"
    by (subst post.simps)
       (simp add: post_no_retry spec_dispatch_def attempt_def post_request_def wrap_def
          split: prod.splits sum.splits json.splits bool.splits)
  with True show ?thesis by simp
qed

lemma get_no_retry:
  "get str_other pf env endpoint ps False w = spec_dispatch str_other (get_request str_other endpoint ps) pf env False w"
  by (subst get.simps)
     (simp add: spec_dispatch_def attempt_def get_request_def wrap_def
        split: prod.splits sum.splits json.splits)

lemma get_spec_dispatch:
  "get str_other pf env endpoint ps retry w = spec_dispatch str_other (get_request str_other endpoint ps) pf env retry w"
proof (cases retry)
  case False
  then show ?thesis by (simp add: get_no_retry)
next
  case True
  have "get str_other pf env endpoint ps True w = spec_dispatch str_other (get_request str_other endpoint ps) pf env True w"
    by (subst get.simps)
       (simp add: get_no_retry spec_dispatch_def attempt_def get_request_def wrap_def
          split: prod.splits sum.splits json.splits bool.splits)
  with True show ?thesis by simp
qed

subsection \<open>Requests issued\<close>

lemma get_token_sent: "get_token env w = (r, w1) \<Longrightarrow> sent w1 = sent w"
  by (auto simp add: get_token_def Let_def load_token_from_env_def split: if_splits)

lemma round_trip_sent: "round_trip pf req w = (r, w1) \<Longrightarrow> sent w1 = sent w @ [req]"
  by (auto simp add: round_trip_def Let_def split: outcome.splits)

lemma save_tokens_sent [simp]: "sent (save_tokens_to_env str_other a r w) = sent w"
  by (simp add: save_tokens_to_env_def Let_def split: option.splits)

lemma refresh_token_sent:
  "refresh_token str_other pf w = (r, w1) \<Longrightarrow>
   sent w1 = sent w @ (if \<not> truthy (st_refresh_token w) then [] else [rotate_request (st_refresh_token w)])"
  by (auto simp add: refresh_token_def round_trip_def Let_def rotate_request_def
      split: if_splits outcome.splits json.splits)

lemma attempt_sent:
  assumes "attempt build pf env w = (r, w1)"
  shows "\<exists>rs. sent w1 = sent w @ rs \<and> length rs \<le> 1 \<and> set rs \<subseteq> range build"
proof -
  obtain r0 w0 where g: "get_token env w = (r0, w0)" by (cases "get_token env w")
  note s0 = get_token_sent [OF g]
  show ?thesis
  proof (cases r0)
    case (Inl e)
    with assms g s0 show ?thesis by (simp add: attempt_def)
  next
    case (Inr token)
    obtain r2 w2 where rt: "round_trip pf (build token) w0 = (r2, w2)"
      by (cases "round_trip pf (build token) w0")
    from assms g Inr rt have "w1 = w2"
      by (auto simp add: attempt_def split: sum.splits json.splits)
    with round_trip_sent [OF rt] s0 show ?thesis by simp
  qed
qed

lemma spec_dispatch_sent_no_retry:
  assumes b: "\<And>t. is_dispatch (build t)"
  shows "\<exists>rs. sent (snd (spec_dispatch str_other build pf env False w)) = sent w @ rs
        \<and> length rs \<le> 1 \<and> filter is_dispatch rs = rs"
proof -
  obtain r1 w1 where a: "attempt build pf env w = (r1, w1)"
    by (cases "attempt build pf env w")
  from a have e: "snd (spec_dispatch str_other build pf env False w) = w1"
    by (simp add: spec_dispatch_def split: sum.splits)
  from attempt_sent [OF a] obtain rs where
    rs: "sent w1 = sent w @ rs" "length rs \<le> 1" "set rs \<subseteq> range build" by blast
  from rs(3) b have "filter is_dispatch rs = rs"
    by (auto simp add: filter_id_conv)
  with rs e show ?thesis by auto
qed

lemma rotate_not_dispatch [simp]: "\<not> is_dispatch (rotate_request x)"
  by (simp add: is_dispatch_def rotate_request_def)

lemma spec_dispatch_sent:
  assumes b: "\<And>t. is_dispatch (build t)"
  shows "\<exists>rs. sent (snd (spec_dispatch str_other build pf env retry w)) = sent w @ rs
        \<and> length (filter is_dispatch rs) \<le> 2
        \<and> length (filter (\<lambda>r. \<not> is_dispatch r) rs) \<le> 1"
proof -
  let ?ok = "\<lambda>w'. \<exists>rs. sent w' = sent w @ rs
        \<and> length (filter is_dispatch rs) \<le> 2
        \<and> length (filter (\<lambda>r. \<not> is_dispatch r) rs) \<le> 1"
  obtain r1 w1 where a1: "attempt build pf env w = (r1, w1)"
    by (cases "attempt build pf env w")
  from attempt_sent [OF a1] obtain rs1 where
    s1: "sent w1 = sent w @ rs1" and l1: "length rs1 \<le> 1" and m1: "set rs1 \<subseteq> range build"
    by blast
  have d1: "filter is_dispatch rs1 = rs1" "filter (\<lambda>r. \<not> is_dispatch r) rs1 = []"
    using b m1 by (auto simp add: filter_id_conv filter_empty_conv)
  have ok1: "?ok w1"
    using s1 l1 d1 by (intro exI [of _ rs1]) simp
  show ?thesis
  proof (cases r1)
    case (Inl e)
    with a1 have "snd (spec_dispatch str_other build pf env retry w) = w1"
      by (simp add: spec_dispatch_def)
    with ok1 show ?thesis by simp
  next
    case (Inr data)
    show ?thesis
    proof (cases "token_expired data \<and> retry")
      case False
      with a1 Inr have "snd (spec_dispatch str_other build pf env retry w) = w1"
        by (auto simp add: spec_dispatch_def)
      with ok1 show ?thesis by simp
    next
      case True
      obtain r2 w2 where rf: "refresh_token str_other pf w1 = (r2, w2)"
        by (cases "refresh_token str_other pf w1")
      define rot where
        "rot = (if \<not> truthy (st_refresh_token w1) then [] else [rotate_request (st_refresh_token w1)])"
      have s2: "sent w2 = sent w @ rs1 @ rot"
        using refresh_token_sent [OF rf] s1 by (simp add: rot_def)
      have rot: "filter is_dispatch rot = []" "length (filter (\<lambda>r. \<not> is_dispatch r) rot) \<le> 1"
        by (simp_all add: rot_def)
      have ok2: "?ok w2"
        using s2 l1 d1 rot by (intro exI [of _ "rs1 @ rot"]) simp
      show ?thesis
      proof (cases "r2 = Inr True")
        case False
        with a1 Inr True rf have "snd (spec_dispatch str_other build pf env retry w) = w2"
          by (auto simp add: spec_dispatch_def split: sum.splits bool.splits)
        with ok2 show ?thesis by simp
      next
        case r2: True
        obtain r3 w3 where a3: "attempt build pf env w2 = (r3, w3)"
          by (cases "attempt build pf env w2")
        from attempt_sent [OF a3] obtain rs3 where
          s3: "sent w3 = sent w2 @ rs3" and l3: "length rs3 \<le> 1"
          and m3: "set rs3 \<subseteq> range build"
          by blast
        have d3: "filter is_dispatch rs3 = rs3" "filter (\<lambda>r. \<not> is_dispatch r) rs3 = []"
          using b m3 by (auto simp add: filter_id_conv filter_empty_conv)
        from a1 Inr True rf r2 a3 have "snd (spec_dispatch str_other build pf env retry w) = w3"
          by (auto simp add: spec_dispatch_def split: sum.splits)
        moreover have "?ok w3"
          using s3 s2 l1 l3 d1 d3 rot by (intro exI [of _ "rs1 @ rot @ rs3"]) simp
        ultimately show ?thesis by simp
      qed
    qed
  qed
qed

lemma post_request_dispatch [simp]: "is_dispatch (post_request str_other endpoint ps t)"
  by (simp add: is_dispatch_def post_request_def)

lemma get_request_dispatch [simp]: "is_dispatch (get_request str_other endpoint ps t)"
  by (simp add: is_dispatch_def get_request_def)

text \<open>
  Claim C1. For every platform (every sequence of responses, so also one
  that answers every dispatch with an expiry signal), every environment,
  endpoint, parameters and starting state, a call of \<^verbatim>\<open>_post\<close> or \<^verbatim>\<open>_get\<close>
  only appends requests to those already sent, at most two of them dispatch
  round trips and at most one a rotation. The retried attempt runs with the
  retry flag false, and a call with the flag false issues at most one
  request, a dispatch round trip: it never rotates or retries.
\<close>

theorem C1_at_most_two_round_trips:
  "(\<exists>rs. sent (snd (post str_other pf env endpoint ps retry w)) = sent w @ rs
        \<and> length (filter is_dispatch rs) \<le> 2
        \<and> length (filter (\<lambda>r. \<not> is_dispatch r) rs) \<le> 1)
   \<and> (\<exists>rs. sent (snd (get str_other pf env endpoint ps retry w)) = sent w @ rs
        \<and> length (filter is_dispatch rs) \<le> 2
        \<and> length (filter (\<lambda>r. \<not> is_dispatch r) rs) \<le> 1)
   \<and> (\<exists>rs. sent (snd (post str_other pf env endpoint ps False w)) = sent w @ rs
        \<and> length rs \<le> 1 \<and> filter is_dispatch rs = rs)
   \<and> (\<exists>rs. sent (snd (get str_other pf env endpoint ps False w)) = sent w @ rs
        \<and> length rs \<le> 1 \<and> filter is_dispatch rs = rs)"
  using spec_dispatch_sent_no_retry [where build = "post_request str_other endpoint ps"
      and str_other = str_other and pf = pf and env = env and w = w]
    spec_dispatch_sent_no_retry [where build = "get_request str_other endpoint ps"
      and str_other = str_other and pf = pf and env = env and w = w]
    spec_dispatch_sent [where build = "post_request str_other endpoint ps"
      and str_other = str_other and pf = pf and env = env and retry = retry and w = w]
    spec_dispatch_sent [where build = "get_request str_other endpoint ps"
      and str_other = str_other and pf = pf and env = env and retry = retry and w = w]
  by (simp add: post_spec_dispatch get_spec_dispatch)

theorem C1_at_most_two_round_trips_witness:
  "length (filter is_dispatch
     (sent (snd (post str_example pf_two env_none ''chat.postMessage'' None True w_example)))) = 2
   \<and> length (sent (snd (post str_example pf_two env_none ''chat.postMessage'' None True w_example))) = 3
   \<and> fst (post str_example pf_two env_none ''chat.postMessage'' None True w_example)
       = Inr (wrap expired_body)"
  using C1_at_most_two_round_trips [where str_other = str_example and pf = pf_two
      and env = env_none and endpoint = "''chat.postMessage''" and ps = None and retry = True
      and w = w_example]
  by (simp add: post_spec_dispatch spec_dispatch_def attempt_def get_token_def Let_def
      round_trip_def refresh_token_def w_example_def pf_two_def expired_body_def
      token_expired_def truthy_opt_def dict_get_def dict_get_default_def save_tokens_to_env_def
      post_request_def is_dispatch_def)

subsection \<open>GET and POST\<close>

lemma mirrored_refl: "mirrored (sent w) w w"
  by (simp add: mirrored_def)

lemma mirrored_length: "mirrored pre wp wg \<Longrightarrow> length (sent wg) = length (sent wp)"
  by (auto simp add: mirrored_def)

lemma mirrored_get_token:
  assumes "mirrored pre wp wg" and "get_token env wp = (r, wp1)"
    and "get_token env wg = (r', wg1)"
  shows "r' = r \<and> mirrored pre wp1 wg1"
  using assms
  by (auto simp add: mirrored_def store_def get_token_def Let_def load_token_from_env_def
      split: if_splits)

lemma mirrored_round_trip:
  assumes "mirrored pre wp wg" and "round_trip pf req wp = (r, wp1)"
    and "round_trip pf (as_get req) wg = (r', wg1)"
  shows "r' = r \<and> mirrored pre wp1 wg1"
  using assms mirrored_length [OF assms(1)]
  by (auto simp add: mirrored_def store_def round_trip_def Let_def split: outcome.splits)

lemma as_get_rotate [simp]: "as_get (rotate_request x) = rotate_request x"
  by (simp add: as_get_def rotate_request_def)

lemma mirrored_save:
  "mirrored pre wp wg \<Longrightarrow>
   mirrored pre (save_tokens_to_env str_other a r wp) (save_tokens_to_env str_other a r wg)"
  by (auto simp add: mirrored_def store_def save_tokens_to_env_def Let_def
      split: option.splits)

lemma refresh_token_unfold:
  "refresh_token str_other pf w =
     (if \<not> truthy (st_refresh_token w) then (Inr False, w)
      else
        (case round_trip pf (rotate_request (st_refresh_token w)) w of
           (Inl e, w1) \<Rightarrow> (Inl e, w1)
         | (Inr (JObj data), w1) \<Rightarrow>
             (if truthy_opt (dict_get data ''ok'') \<and> truthy (dict_get_default data ''token'' (JStr []))
              then (Inr True, save_tokens_to_env str_other (dict_get_default data ''token'' (JStr []))
                      (dict_get_default data ''refresh_token'' (JStr [])) w1)
              else (Inr False, w1))
         | (Inr _, w1) \<Rightarrow> (Inl AttributeError, w1)))"
  by (simp add: refresh_token_def rotate_request_def Let_def
      split: prod.splits sum.splits json.splits)

lemma mirrored_refresh:
  assumes r: "mirrored pre wp wg" and p: "refresh_token str_other pf wp = (r, wp1)"
    and g: "refresh_token str_other pf wg = (r', wg1)"
  shows "r' = r \<and> mirrored pre wp1 wg1"
proof -
  from r have eq: "st_refresh_token wg = st_refresh_token wp"
    by (simp add: mirrored_def store_def)
  show ?thesis
  proof (cases "\<not> truthy (st_refresh_token wp)")
    case True
    with p g eq r show ?thesis by (simp add: refresh_token_unfold)
  next
    case False
    let ?req = "rotate_request (st_refresh_token wp)"
    obtain a wp2 where rp: "round_trip pf ?req wp = (a, wp2)"
      by (cases "round_trip pf ?req wp")
    obtain a' wg2 where rg: "round_trip pf (as_get ?req) wg = (a', wg2)"
      by (cases "round_trip pf (as_get ?req) wg")
    from mirrored_round_trip [OF r rp rg] have a: "a' = a" and r2: "mirrored pre wp2 wg2"
      by simp_all
    from rg a have rg': "round_trip pf ?req wg = (a, wg2)" by simp
    from p False rp have p': "(r, wp1) =
        (case (a, wp2) of
           (Inl e, w1) \<Rightarrow> (Inl e, w1)
         | (Inr (JObj data), w1) \<Rightarrow>
             (if truthy_opt (dict_get data ''ok'') \<and> truthy (dict_get_default data ''token'' (JStr []))
              then (Inr True, save_tokens_to_env str_other (dict_get_default data ''token'' (JStr []))
                      (dict_get_default data ''refresh_token'' (JStr [])) w1)
              else (Inr False, w1))
         | (Inr _, w1) \<Rightarrow> (Inl AttributeError, w1))"
      by (simp add: refresh_token_unfold)
    from g False eq rg' have g': "(r', wg1) =
        (case (a, wg2) of
           (Inl e, w1) \<Rightarrow> (Inl e, w1)
         | (Inr (JObj data), w1) \<Rightarrow>
             (if truthy_opt (dict_get data ''ok'') \<and> truthy (dict_get_default data ''token'' (JStr []))
              then (Inr True, save_tokens_to_env str_other (dict_get_default data ''token'' (JStr []))
                      (dict_get_default data ''refresh_token'' (JStr [])) w1)
              else (Inr False, w1))
         | (Inr _, w1) \<Rightarrow> (Inl AttributeError, w1))"
      by (simp add: refresh_token_unfold)
    from p' g' r2 mirrored_save [OF r2] show ?thesis
      by (auto split: sum.splits json.splits if_splits)
  qed
qed

lemma mirrored_attempt:
  assumes r: "mirrored pre wp wg" and b: "\<And>t. bg t = as_get (bp t)"
    and p: "attempt bp pf env wp = (r, wp1)" and g: "attempt bg pf env wg = (r', wg1)"
  shows "r' = r \<and> mirrored pre wp1 wg1"
proof -
  obtain t wp0 where tp: "get_token env wp = (t, wp0)" by (cases "get_token env wp")
  obtain t' wg0 where tg: "get_token env wg = (t', wg0)" by (cases "get_token env wg")
  from mirrored_get_token [OF r tp tg] have t: "t' = t" and r0: "mirrored pre wp0 wg0"
    by simp_all
  show ?thesis
  proof (cases t)
    case (Inl e)
    with p g tp tg t r0 show ?thesis by (simp add: attempt_def)
  next
    case (Inr token)
    obtain a wp2 where rp: "round_trip pf (bp token) wp0 = (a, wp2)"
      by (cases "round_trip pf (bp token) wp0")
    obtain a' wg2 where rg: "round_trip pf (as_get (bp token)) wg0 = (a', wg2)"
      by (cases "round_trip pf (as_get (bp token)) wg0")
    from mirrored_round_trip [OF r0 rp rg] have a: "a' = a" and r2: "mirrored pre wp2 wg2"
      by simp_all
    from p tp Inr rp g tg t rg a b r2 show ?thesis
      by (auto simp add: attempt_def split: sum.splits json.splits)
  qed
qed

lemma mirrored_spec_dispatch:
  assumes r: "mirrored pre wp wg" and b: "\<And>t. bg t = as_get (bp t)"
  shows "fst (spec_dispatch str_other bg pf env retry wg)
           = fst (spec_dispatch str_other bp pf env retry wp)
       \<and> mirrored pre (snd (spec_dispatch str_other bp pf env retry wp))
            (snd (spec_dispatch str_other bg pf env retry wg))"
proof -
  obtain a1 wp1 where p1: "attempt bp pf env wp = (a1, wp1)" by (cases "attempt bp pf env wp")
  obtain a1' wg1 where g1: "attempt bg pf env wg = (a1', wg1)" by (cases "attempt bg pf env wg")
  from mirrored_attempt [OF r b p1 g1] have a1: "a1' = a1" and r1: "mirrored pre wp1 wg1"
    by simp_all
  obtain f wp2 where p2: "refresh_token str_other pf wp1 = (f, wp2)"
    by (cases "refresh_token str_other pf wp1")
  obtain f' wg2 where g2: "refresh_token str_other pf wg1 = (f', wg2)"
    by (cases "refresh_token str_other pf wg1")
  from mirrored_refresh [OF r1 p2 g2] have f: "f' = f" and r2: "mirrored pre wp2 wg2"
    by simp_all
  obtain a3 wp3 where p3: "attempt bp pf env wp2 = (a3, wp3)" by (cases "attempt bp pf env wp2")
  obtain a3' wg3 where g3: "attempt bg pf env wg2 = (a3', wg3)" by (cases "attempt bg pf env wg2")
  from mirrored_attempt [OF r2 b p3 g3] have a3: "a3' = a3" and r3: "mirrored pre wp3 wg3"
    by simp_all
  from p1 g1 a1 r1 p2 g2 f r2 p3 g3 a3 r3 show ?thesis
    by (simp add: spec_dispatch_def split: sum.splits bool.splits)
qed

lemma get_request_as_get: "get_request str_other endpoint ps t = as_get (post_request str_other endpoint ps t)"
  by (simp add: get_request_def post_request_def as_get_def)

lemma as_get_keeps:
  "req_url (as_get r) = req_url r
   \<and> map_of (req_headers (as_get r)) ''Authorization''
       = map_of (req_headers r) ''Authorization''"
proof -
  have "map_of (filter (\<lambda>h. fst h = k) hs) k = map_of hs k"
    for hs :: "(string \<times> string) list" and k
    by (induction hs) auto
  then show ?thesis
    by (simp add: as_get_def split: payload.splits)
qed

text \<open>
  Claim C10. From the same state, against the same platform and
  environment and with the same endpoint, parameters and retry flag,
  \<^verbatim>\<open>_get\<close> and \<^verbatim>\<open>_post\<close> return the same result (the same wrapped payload or
  the same exception) and leave the same credentials and file; the requests
  \<^verbatim>\<open>_get\<close> issues are, one for one, the GET counterparts of those \<^verbatim>\<open>_post\<close>
  issues: same address and same bearer header, the parameters in the query
  string instead of the JSON body, the rotation request unchanged. Both are
  the same two-attempt dispatcher applied to their way of building the
  request, so they detect expiry under the same condition and rotate and
  retry at most once.
\<close>

theorem C10_get_post_equivalent:
  "fst (get str_other pf env endpoint ps retry w) = fst (post str_other pf env endpoint ps retry w)
   \<and> store (snd (get str_other pf env endpoint ps retry w)) = store (snd (post str_other pf env endpoint ps retry w))
   \<and> (\<exists>rs. sent (snd (post str_other pf env endpoint ps retry w)) = sent w @ rs
          \<and> sent (snd (get str_other pf env endpoint ps retry w)) = sent w @ map as_get rs)
   \<and> post str_other pf env endpoint ps retry w
       = spec_dispatch str_other (post_request str_other endpoint ps) pf env retry w
   \<and> get str_other pf env endpoint ps retry w
       = spec_dispatch str_other (get_request str_other endpoint ps) pf env retry w
   \<and> get_request str_other endpoint ps token = as_get (post_request str_other endpoint ps token)
   \<and> req_url (as_get r) = req_url r
   \<and> map_of (req_headers (as_get r)) ''Authorization''
       = map_of (req_headers r) ''Authorization''"
  using mirrored_spec_dispatch [OF mirrored_refl [of w],
      where bg = "get_request str_other endpoint ps"
      and bp = "post_request str_other endpoint ps" and str_other = str_other and pf = pf
      and env = env and retry = retry] get_request_as_get as_get_keeps [of r]
  by (simp add: post_spec_dispatch get_spec_dispatch mirrored_def)

theorem C10_get_post_equivalent_witness:
  "fst (get str_example pf_two env_none ''chat.postMessage'' None True w_example)
     = Inr (wrap expired_body)
   \<and> fst (post str_example pf_two env_none ''chat.postMessage'' None True w_example)
     = Inr (wrap expired_body)
   \<and> st_access_token
        (snd (get str_example pf_two env_none ''chat.postMessage'' None True w_example))
     = JStr ''AAA''"
  using C10_get_post_equivalent [where str_other = str_example and pf = pf_two
      and env = env_none and endpoint = "''chat.postMessage''" and ps = None and retry = True
      and w = w_example]
  by (simp add: spec_dispatch_def attempt_def get_token_def Let_def
      round_trip_def refresh_token_def w_example_def pf_two_def expired_body_def
      token_expired_def truthy_opt_def dict_get_def dict_get_default_def save_tokens_to_env_def
      post_request_def get_request_def)

end
